theory Spec2Isabelle
  imports Main "HOL-Library.Word"
begin

unbundle bit_operations_syntax

section \<open>Machine types\<close>

text \<open>
  The emulator works on fixed-width unsigned integers (\<open>uInt8\<close>, \<open>uInt16\<close>, \<open>uInt32\<close>,
  \<open>uInt64\<close>).  They are modelled as words, so that every addition and shift wraps as the
  C++ arithmetic does.
\<close>

type_synonym u8 = "8 word"
type_synonym u16 = "16 word"
type_synonym u32 = "32 word"
type_synonym u64 = "64 word"

section \<open>M6502 : the processor core\<close>

text \<open>
  M6502.cxx, as built without \<open>DEBUGGER_SUPPORT\<close> (the spec's optional debugger surface
  is absent; every \<open>#ifdef DEBUGGER_SUPPORT\<close> block is compiled out).

  The processor state.  \<open>mySystem\<close> is the state of the \<open>System\<close> (the address bus and
  the devices behind it) the processor is installed in; its type is a parameter, since
  System.cxx is not part of the sources.
\<close>

record 'b M6502 =
  A :: u8
  X :: u8
  Y :: u8
  SP :: u8
  IR :: u8
  PC :: u16
  N :: bool
  V :: bool
  B :: bool
  D :: bool
  I :: bool
  notZ :: bool
  C :: bool
  myExecutionStatus :: u8
  icycles :: u32
  myNumberOfDistinctAccesses :: u32
  myLastAddress :: u16
  myLastPeekAddress :: u16
  myLastPokeAddress :: u16
  myDataAddressForPoke :: u16
  myFlags :: u8
  myHaltRequested :: bool
  mySystem :: 'b

text \<open>
  What one instruction of the dispatch table does to the processor: it completes, or it
  throws one of the two exceptions \<open>_execute\<close> catches (with the state at the throw).
\<close>

datatype 'b instruction_result =
    Completed "'b M6502"
  | FatalEmulationError string "'b M6502"
  | EmulationWarning string "'b M6502"

text \<open>
  Everything M6502.cxx uses and the sources do not contain, as parameters:
  \<^item> the \<open>System\<close> calls (\<open>peek\<close>, \<open>poke\<close>, \<open>incrementCycles\<close>, \<open>cycles\<close>, and
    \<open>updateEmulation\<close> of the TIA and the M6532),
  \<^item> the halt callback \<open>myOnHaltCallback\<close>,
  \<^item> the constants of M6502.hxx (the four execution-status bits,
    \<open>SYSTEM_CYCLES_PER_CPU\<close>) and the status-byte accessor \<open>PS()\<close>,
  \<^item> the generated dispatch table M6502.ins: \<open>instructions op\<close> is the \<open>case\<close> of the
    \<open>switch(IR)\<close> for opcode \<open>op\<close>, and \<open>None\<close> when the table has no such case (the
    \<open>default:\<close> branch is taken).
\<close>

record 'b M6502_env =
  sys_peek :: "u16 \<Rightarrow> u8 \<Rightarrow> 'b \<Rightarrow> u8 \<times> 'b"
  sys_poke :: "u16 \<Rightarrow> u8 \<Rightarrow> u8 \<Rightarrow> 'b \<Rightarrow> 'b"
  sys_incrementCycles :: "u32 \<Rightarrow> 'b \<Rightarrow> 'b"
  sys_cycles :: "'b \<Rightarrow> u64"
  tia_updateEmulation :: "'b \<Rightarrow> 'b"
  m6532_updateEmulation :: "'b \<Rightarrow> 'b"
  myOnHaltCallback :: "'b \<Rightarrow> 'b"
  StopExecutionBit :: u8
  FatalErrorBit :: u8
  MaskableInterruptBit :: u8
  NonmaskableInterruptBit :: u8
  SYSTEM_CYCLES_PER_CPU :: u32
  PS :: "'b M6502 \<Rightarrow> u8"
  DISASM_CODE :: u8
  instructions :: "u8 \<Rightarrow> ('b M6502 \<Rightarrow> 'b instruction_result) option"

text \<open>
  The \<open>DispatchResult\<close> an execution reports into is a class of DispatchResult.hxx, not
  in the sources.  It is modelled by the sequence of setter calls \<open>_execute\<close> makes on it.
\<close>

datatype dispatch_call =
    setOk u64
  | setDebugger u64 string u16
  | setFatal u64
  | setMessage string

type_synonym DispatchResult = "dispatch_call list"

definition handleHalt :: "'b M6502_env \<Rightarrow> 'b M6502 \<Rightarrow> 'b M6502" where
  "handleHalt env cpu =
     (if myHaltRequested cpu
      then cpu\<lparr>mySystem := myOnHaltCallback env (mySystem cpu), myHaltRequested := False\<rparr>
      else cpu)"

text \<open>\<open>M6502::peek\<close> and \<open>M6502::poke\<close>: one bus access of the processor.\<close>

definition M6502_peek :: "'b M6502_env \<Rightarrow> u16 \<Rightarrow> u8 \<Rightarrow> 'b M6502 \<Rightarrow> u8 \<times> 'b M6502" where
  "M6502_peek env address flags cpu =
     (let cpu1 = handleHalt env cpu;
          cpu2 = (if address \<noteq> myLastAddress cpu1
                  then cpu1\<lparr>myNumberOfDistinctAccesses := myNumberOfDistinctAccesses cpu1 + 1,
                            myLastAddress := address\<rparr>
                  else cpu1);
          cpu3 = cpu2\<lparr>mySystem := sys_incrementCycles env (SYSTEM_CYCLES_PER_CPU env) (mySystem cpu2),
                       icycles := icycles cpu2 + SYSTEM_CYCLES_PER_CPU env,
                       myFlags := flags\<rparr>;
          (result, sys) = sys_peek env address flags (mySystem cpu3)
      in (result, cpu3\<lparr>mySystem := sys, myLastPeekAddress := address\<rparr>))"

definition M6502_poke :: "'b M6502_env \<Rightarrow> u16 \<Rightarrow> u8 \<Rightarrow> u8 \<Rightarrow> 'b M6502 \<Rightarrow> 'b M6502" where
  "M6502_poke env address val flags cpu =
     (let cpu2 = (if address \<noteq> myLastAddress cpu
                  then cpu\<lparr>myNumberOfDistinctAccesses := myNumberOfDistinctAccesses cpu + 1,
                           myLastAddress := address\<rparr>
                  else cpu);
          cpu3 = cpu2\<lparr>mySystem := sys_incrementCycles env (SYSTEM_CYCLES_PER_CPU env) (mySystem cpu2),
                       icycles := icycles cpu2 + SYSTEM_CYCLES_PER_CPU env\<rparr>
      in cpu3\<lparr>mySystem := sys_poke env address val flags (mySystem cpu3),
              myLastPokeAddress := address\<rparr>)"

text \<open>
  \<open>M6502::interruptHandler\<close>.  Both branches push through \<open>mySystem->poke\<close> at
  \<open>0x0100 + SP--\<close>: first \<open>(PC - 1) >> 8\<close>, then \<open>(PC - 1) & 0x00ff\<close>, then
  \<open>PS() & ~0x10\<close>.  \<open>interrupt_frame\<close> is that common part of the two branches, with the
  vector address as its argument; the two peeks of the vector are taken left to right.
\<close>

definition interrupt_frame :: "'b M6502_env \<Rightarrow> u16 \<Rightarrow> 'b M6502 \<Rightarrow> 'b M6502" where
  "interrupt_frame env vector cpu =
     (let s0 = sys_incrementCycles env (7 * SYSTEM_CYCLES_PER_CPU env) (mySystem cpu);
          s1 = sys_poke env (0x0100 + ucast (SP cpu)) (ucast (drop_bit 8 (PC cpu - 1))) 0 s0;
          s2 = sys_poke env (0x0100 + ucast (SP cpu - 1)) (ucast ((PC cpu - 1) AND 0x00ff)) 0 s1;
          s3 = sys_poke env (0x0100 + ucast (SP cpu - 2)) (PS env cpu AND NOT 0x10) 0 s2;
          (lo, s4) = sys_peek env vector 0 s3;
          (hi, s5) = sys_peek env (vector + 1) 0 s4
      in cpu\<lparr>mySystem := s5, SP := SP cpu - 3, D := False,
             PC := ucast lo OR push_bit 8 (ucast hi)\<rparr>)"

definition interruptHandler :: "'b M6502_env \<Rightarrow> 'b M6502 \<Rightarrow> 'b M6502" where
  "interruptHandler env cpu =
     (let cpu1 =
            (if myExecutionStatus cpu AND MaskableInterruptBit env \<noteq> 0 \<and> \<not> I cpu
             then (interrupt_frame env 0xFFFE cpu)\<lparr>I := True\<rparr>
             else if myExecutionStatus cpu AND NonmaskableInterruptBit env \<noteq> 0
             then interrupt_frame env 0xFFFA cpu
             else cpu)
      in cpu1\<lparr>myExecutionStatus :=
                myExecutionStatus cpu1 AND NOT (MaskableInterruptBit env OR NonmaskableInterruptBit env)\<rparr>)"

text \<open>
  The body of the inner \<open>while\<close> loop of \<open>_execute\<close>: reset the address bookkeeping,
  fetch the opcode at \<open>PC++\<close>, dispatch.  \<open>execute_fetch\<close> is the statement
  \<open>IR = peek(PC++, DISASM_CODE)\<close>.
\<close>

definition execute_fetch :: "'b M6502_env \<Rightarrow> 'b M6502 \<Rightarrow> 'b M6502" where
  "execute_fetch env cpu =
     (let cpu1 = cpu\<lparr>myLastPeekAddress := 0, myLastPokeAddress := 0, myDataAddressForPoke := 0,
                      icycles := 0\<rparr>;
          (opcode, cpu2) = M6502_peek env (PC cpu1) (DISASM_CODE env) (cpu1\<lparr>PC := PC cpu1 + 1\<rparr>)
      in cpu2\<lparr>IR := opcode\<rparr>)"

definition execute_dispatch :: "'b M6502_env \<Rightarrow> 'b M6502 \<Rightarrow> 'b instruction_result" where
  "execute_dispatch env cpu =
     (case instructions env (IR cpu) of
        Some ins \<Rightarrow> ins cpu
      | None \<Rightarrow> FatalEmulationError ''invalid instruction'' cpu)"

text \<open>
  \<open>_execute\<close>: the \<open>for(;;)\<close> loop with its inner \<open>while\<close> loop, as one recursion on
  the loop state (\<open>currentCycles\<close>, the result being written, the processor).  Each unfolding
  evaluates the \<open>while\<close> condition: when it holds, one instruction is run and the loop
  continues; when it fails, the rest of the \<open>for\<close> body is run, which returns or goes
  round again.  The loop need not terminate, so the function is partial: \<open>None\<close> is a run
  that never returns.
\<close>

partial_function (option) execute_loop ::
  "'b M6502_env \<Rightarrow> u64 \<Rightarrow> u64 \<Rightarrow> u64 \<Rightarrow> DispatchResult \<Rightarrow> 'b M6502 \<Rightarrow>
     (DispatchResult \<times> 'b M6502) option" where
  "execute_loop env cycles previousCycles currentCycles result cpu =
     (if myExecutionStatus cpu = 0 \<and> currentCycles < cycles * ucast (SYSTEM_CYCLES_PER_CPU env)
      then
        (case execute_dispatch env (execute_fetch env cpu) of
           Completed cpu1 \<Rightarrow>
             execute_loop env cycles previousCycles
               (sys_cycles env (mySystem cpu1) - previousCycles) result cpu1
         | FatalEmulationError what cpu1 \<Rightarrow>
             execute_loop env cycles previousCycles
               (sys_cycles env (mySystem cpu1) - previousCycles)
               (result @ [setMessage what])
               (cpu1\<lparr>myExecutionStatus := myExecutionStatus cpu1 OR FatalErrorBit env\<rparr>)
         | EmulationWarning what cpu1 \<Rightarrow>
             Some (result @ [setDebugger currentCycles what (PC cpu1)], cpu1))
      else
        (let cpu1 =
               (if myExecutionStatus cpu AND MaskableInterruptBit env \<noteq> 0 \<or>
                   myExecutionStatus cpu AND NonmaskableInterruptBit env \<noteq> 0
                then interruptHandler env cpu else cpu)
         in if myExecutionStatus cpu1 AND FatalErrorBit env \<noteq> 0
              then Some (result @ [setFatal currentCycles], cpu1)
            else if myExecutionStatus cpu1 AND StopExecutionBit env \<noteq> 0
              then Some (result @ [setOk currentCycles], cpu1)
            else if cycles * ucast (SYSTEM_CYCLES_PER_CPU env) \<le> currentCycles
              then Some (result @ [setOk currentCycles], cpu1)
            else execute_loop env cycles previousCycles currentCycles result cpu1))"

definition execute_private ::
  "'b M6502_env \<Rightarrow> u64 \<Rightarrow> DispatchResult \<Rightarrow> 'b M6502 \<Rightarrow> (DispatchResult \<times> 'b M6502) option" where
  "execute_private env cycles result cpu =
     execute_loop env cycles (sys_cycles env (mySystem cpu)) 0 result
       (cpu\<lparr>myExecutionStatus := 0\<rparr>)"

text \<open>
  \<open>M6502::execute(number, result)\<close>: \<open>_execute\<close> (here \<open>execute_private\<close>, an
  identifier cannot start with an underscore), then the two \<open>updateEmulation\<close> calls.
\<close>

definition execute ::
  "'b M6502_env \<Rightarrow> u64 \<Rightarrow> DispatchResult \<Rightarrow> 'b M6502 \<Rightarrow> (DispatchResult \<times> 'b M6502) option" where
  "execute env number result cpu =
     (case execute_private env number result cpu of
        None \<Rightarrow> None
      | Some (result1, cpu1) \<Rightarrow>
          Some (result1,
                cpu1\<lparr>mySystem := m6532_updateEmulation env (tia_updateEmulation env (mySystem cpu1))\<rparr>))"

text \<open>
  A concrete system for evaluating the definitions: a flat 64K memory and a cycle counter.
  Modelled from the spec: the AddressBus (System.cxx, not in the sources) offers
  \<open>read(address)\<close>, \<open>write(address, byte)\<close>, \<open>advanceCycles(n)\<close> and
  \<open>currentCycle()\<close>; here every page is plain memory.  The status bits take the values
  1, 2, 4, 8, the status byte has the standard 6502 layout, and the dispatch table holds a
  single instruction, \<open>NOP\<close> (opcode \<open>0xEA\<close>, one further bus read).
\<close>

record flat_system =
  flat_cycles :: u64
  flat_memory :: "u16 \<Rightarrow> u8"

definition flat_PS :: "flat_system M6502 \<Rightarrow> u8" where
  "flat_PS cpu =
     0x20 OR (if N cpu then 0x80 else 0) OR (if V cpu then 0x40 else 0) OR
     (if B cpu then 0x10 else 0) OR (if D cpu then 0x08 else 0) OR (if I cpu then 0x04 else 0) OR
     (if \<not> notZ cpu then 0x02 else 0) OR (if C cpu then 0x01 else 0)"

definition flat_peek :: "u16 \<Rightarrow> u8 \<Rightarrow> flat_system \<Rightarrow> u8 \<times> flat_system" where
  "flat_peek address flags s = (flat_memory s address, s)"

definition flat_poke :: "u16 \<Rightarrow> u8 \<Rightarrow> u8 \<Rightarrow> flat_system \<Rightarrow> flat_system" where
  "flat_poke address val flags s = s\<lparr>flat_memory := (flat_memory s)(address := val)\<rparr>"

definition flat_incrementCycles :: "u32 \<Rightarrow> flat_system \<Rightarrow> flat_system" where
  "flat_incrementCycles n s = s\<lparr>flat_cycles := flat_cycles s + ucast n\<rparr>"

definition flat_bus :: "flat_system M6502_env" where
  "flat_bus =
     \<lparr> sys_peek = flat_peek,
       sys_poke = flat_poke,
       sys_incrementCycles = flat_incrementCycles,
       sys_cycles = flat_cycles,
       tia_updateEmulation = (\<lambda>s. s),
       m6532_updateEmulation = (\<lambda>s. s),
       myOnHaltCallback = (\<lambda>s. s),
       StopExecutionBit = 0x01,
       FatalErrorBit = 0x02,
       MaskableInterruptBit = 0x04,
       NonmaskableInterruptBit = 0x08,
       SYSTEM_CYCLES_PER_CPU = 1,
       PS = flat_PS,
       DISASM_CODE = 0,
       instructions = (\<lambda>op. None) \<rparr>"

definition flat_NOP :: "flat_system M6502 \<Rightarrow> flat_system instruction_result" where
  "flat_NOP cpu = Completed (snd (M6502_peek flat_bus (PC cpu) 0 cpu))"

definition flat_env :: "flat_system M6502_env" where
  "flat_env = flat_bus\<lparr>instructions := (\<lambda>op. if op = 0xEA then Some flat_NOP else None)\<rparr>"

text \<open>A processor at rest on the flat system: all registers zero, all flags clear.\<close>

definition flat_cpu :: "(u16 \<Rightarrow> u8) \<Rightarrow> flat_system M6502" where
  "flat_cpu mem =
     \<lparr> A = 0, X = 0, Y = 0, SP = 0, IR = 0, PC = 0,
       N = False, V = False, B = False, D = False, I = False, notZ = False, C = False,
       myExecutionStatus = 0, icycles = 0, myNumberOfDistinctAccesses = 0,
       myLastAddress = 0, myLastPeekAddress = 0, myLastPokeAddress = 0,
       myDataAddressForPoke = 0, myFlags = 0, myHaltRequested = False,
       mySystem = \<lparr> flat_cycles = 0, flat_memory = mem \<rparr> \<rparr>"

section \<open>AudioQueue : the audio hand-off ring\<close>

text \<open>
  AudioQueue.cxx.  A fragment is an \<open>Int16*\<close>; it is modelled by its address counted in
  \<open>Int16\<close> units, and \<open>0\<close> is the null pointer.  \<open>mySize\<close> and \<open>myNextFragment\<close> are
  \<open>uInt8\<close> in the source: they are kept as naturals and every assignment truncates
  modulo 256 as the conversion to \<open>uInt8\<close> does.  The mutex only serialises the calls and
  is not part of the sequential model.

  The three ways a call can fail: the two \<open>runtime_error\<close>s thrown by the source, the
  \<open>std::out_of_range\<close> of \<open>vector::at\<close>, and the integer division by zero of
  \<open>% capacity\<close> on a queue of capacity zero (undefined behaviour in C++, here a failure).
\<close>

datatype audio_error = RuntimeError string | DivisionByZero | OutOfRange

type_synonym fragment_ptr = nat

record AudioQueue =
  myFragmentSize :: nat
  myIsStereo :: bool
  myFragmentQueue :: "fragment_ptr list"
  myAllFragments :: "fragment_ptr list"
  mySize :: nat
  myNextFragment :: nat
  myFragmentBuffer :: fragment_ptr
  myFirstFragmentForEnqueue :: fragment_ptr
  myFirstFragmentForDequeue :: fragment_ptr

text \<open>
  \<open>myFragmentBuffer + i * sampleSize * myFragmentSize\<close>: the product is computed in
  \<open>uInt32\<close> (it wraps modulo \<open>2^32\<close>) and then added to the pointer.
\<close>

definition fragment_at :: "fragment_ptr \<Rightarrow> nat \<Rightarrow> nat \<Rightarrow> nat \<Rightarrow> fragment_ptr" where
  "fragment_at buf i sampleSize fragmentSize = buf + (i * sampleSize * fragmentSize) mod 2 ^ 32"

text \<open>
  The constructor.  \<open>buf\<close> is the address that \<open>new Int16[...]\<close> returned.  The
  \<open>sampleRate\<close> argument is accepted and not stored, as in the source.
\<close>

definition AudioQueue_new :: "fragment_ptr \<Rightarrow> u32 \<Rightarrow> u8 \<Rightarrow> bool \<Rightarrow> u16 \<Rightarrow> AudioQueue" where
  "AudioQueue_new buf fragmentSize capacity isStereo sampleRate =
     (let sampleSize = (if isStereo then 2 else 1 :: nat);
          slots = map (\<lambda>i. fragment_at buf i sampleSize (unat fragmentSize)) [0 ..< unat capacity];
          forEnqueue = fragment_at buf (unat capacity) sampleSize (unat fragmentSize);
          forDequeue = fragment_at buf (unat capacity + 1) sampleSize (unat fragmentSize)
      in \<lparr> myFragmentSize = unat fragmentSize,
           myIsStereo = isStereo,
           myFragmentQueue = slots,
           myAllFragments = slots @ [forEnqueue, forDequeue],
           mySize = 0,
           myNextFragment = 0,
           myFragmentBuffer = buf,
           myFirstFragmentForEnqueue = forEnqueue,
           myFirstFragmentForDequeue = forDequeue \<rparr>)"

definition capacity :: "AudioQueue \<Rightarrow> nat" where
  "capacity q = length (myFragmentQueue q) mod 256"

definition enqueue :: "AudioQueue \<Rightarrow> fragment_ptr \<Rightarrow> audio_error + fragment_ptr \<times> AudioQueue" where
  "enqueue q fragment =
     (if fragment = 0 then
        (if myFirstFragmentForEnqueue q = 0 then Inl (RuntimeError ''enqueue called empty'')
         else Inr (myFirstFragmentForEnqueue q, q\<lparr>myFirstFragmentForEnqueue := 0\<rparr>))
      else
        (let cap = capacity q in
         if cap = 0 then Inl DivisionByZero
         else
           (let fragmentIndex = ((myNextFragment q + mySize q) mod cap) mod 256 in
            if length (myFragmentQueue q) \<le> fragmentIndex then Inl OutOfRange
            else
              (let newFragment = myFragmentQueue q ! fragmentIndex;
                   q1 = q\<lparr>myFragmentQueue := (myFragmentQueue q)[fragmentIndex := fragment]\<rparr>;
                   q2 = (if mySize q1 < cap then q1\<lparr>mySize := (mySize q1 + 1) mod 256\<rparr>
                         else q1\<lparr>myNextFragment := ((myNextFragment q1 + 1) mod cap) mod 256\<rparr>)
               in Inr (newFragment, q2)))))"

definition dequeue :: "AudioQueue \<Rightarrow> fragment_ptr \<Rightarrow> audio_error + fragment_ptr \<times> AudioQueue" where
  "dequeue q fragment =
     (if mySize q = 0 then Inr (0, q)
      else if fragment = 0 \<and> myFirstFragmentForDequeue q = 0
        then Inl (RuntimeError ''dequeue called empty'')
      else
        (let (fragment1, q1) =
               (if fragment = 0
                then (myFirstFragmentForDequeue q, q\<lparr>myFirstFragmentForDequeue := 0\<rparr>)
                else (fragment, q))
         in if length (myFragmentQueue q1) \<le> myNextFragment q1 then Inl OutOfRange
            else
              (let nextFragment = myFragmentQueue q1 ! myNextFragment q1;
                   q2 = q1\<lparr>myFragmentQueue := (myFragmentQueue q1)[myNextFragment q1 := fragment1]\<rparr>;
                   q3 = q2\<lparr>mySize := (mySize q2 + 255) mod 256\<rparr>;
                   q4 = q3\<lparr>myNextFragment :=
                           ((myNextFragment q3 + 1) mod length (myFragmentQueue q3)) mod 256\<rparr>
               in Inr (nextFragment, q4))))"

text \<open>A run of calls, stopping at the first failure; the returned fragments are collected.\<close>

fun enqueue_all ::
  "AudioQueue \<Rightarrow> fragment_ptr list \<Rightarrow> audio_error + fragment_ptr list \<times> AudioQueue" where
  "enqueue_all q [] = Inr ([], q)"
| "enqueue_all q (f # fs) =
     (case enqueue q f of
        Inl e \<Rightarrow> Inl e
      | Inr (r, q1) \<Rightarrow>
          (case enqueue_all q1 fs of Inl e \<Rightarrow> Inl e | Inr (rs, q2) \<Rightarrow> Inr (r # rs, q2)))"

fun dequeue_all ::
  "AudioQueue \<Rightarrow> fragment_ptr list \<Rightarrow> audio_error + fragment_ptr list \<times> AudioQueue" where
  "dequeue_all q [] = Inr ([], q)"
| "dequeue_all q (f # fs) =
     (case dequeue q f of
        Inl e \<Rightarrow> Inl e
      | Inr (r, q1) \<Rightarrow>
          (case dequeue_all q1 fs of Inl e \<Rightarrow> Inl e | Inr (rs, q2) \<Rightarrow> Inr (r # rs, q2)))"

text \<open>
  Reading a ring: the \<open>k\<close> entries of \<open>xs\<close> from index \<open>n\<close> on, wrapping at the end.
  \<open>queued q\<close> is the content of the queue, oldest fragment first.  \<open>ring_ok\<close> is the
  representation invariant of a queue whose capacity is at least one.
\<close>

definition ring :: "'a list \<Rightarrow> nat \<Rightarrow> nat \<Rightarrow> 'a list" where
  "ring xs n k = map (\<lambda>i. xs ! ((n + i) mod length xs)) [0 ..< k]"

definition queued :: "AudioQueue \<Rightarrow> fragment_ptr list" where
  "queued q = ring (myFragmentQueue q) (myNextFragment q) (mySize q)"

definition ring_ok :: "AudioQueue \<Rightarrow> bool" where
  "ring_ok q = (0 < length (myFragmentQueue q) \<and> length (myFragmentQueue q) < 256 \<and>
                mySize q \<le> length (myFragmentQueue q) \<and>
                myNextFragment q < length (myFragmentQueue q))"

text \<open>The last \<open>c\<close> elements of a list (the whole list when it is shorter).\<close>

definition lastn :: "nat \<Rightarrow> 'a list \<Rightarrow> 'a list" where
  "lastn c xs = drop (length xs - c) xs"

section \<open>DPC+ : the 32-bit linear-feedback shift register\<close>

text \<open>
  \<open>CartridgeDPCPlus::clockRandomNumberGenerator\<close> and
  \<open>CartridgeDPCPlus::priorClockRandomNumberGenerator\<close> (CartDPCPlus.cxx), as functions of
  the register \<open>myRandomNumber\<close>.  \<open>push_bit\<close> is \<open><<\<close> and \<open>drop_bit\<close> is \<open>>>\<close>
  on an unsigned 32-bit value.
\<close>

definition clockRandomNumberGenerator :: "u32 \<Rightarrow> u32" where
  "clockRandomNumberGenerator r =
     (if r AND push_bit 10 1 \<noteq> 0 then 0x10adab1e else 0x00) XOR
     (drop_bit 11 r OR push_bit 21 r)"

definition priorClockRandomNumberGenerator :: "u32 \<Rightarrow> u32" where
  "priorClockRandomNumberGenerator r =
     (if r AND push_bit 31 1 \<noteq> 0
      then push_bit 11 (0x10adab1e XOR r) OR drop_bit 21 (0x10adab1e XOR r)
      else push_bit 11 r OR drop_bit 21 r)"

section \<open>Properties of the processor core\<close>

lemma interrupt_frame_effect:
  "interrupt_frame env vector cpu =
     (let s3 = sys_poke env (0x0100 + ucast (SP cpu - 2)) (PS env cpu AND NOT 0x10) 0
                 (sys_poke env (0x0100 + ucast (SP cpu - 1)) (ucast ((PC cpu - 1) AND 0x00ff)) 0
                   (sys_poke env (0x0100 + ucast (SP cpu)) (ucast (drop_bit 8 (PC cpu - 1))) 0
                     (sys_incrementCycles env (7 * SYSTEM_CYCLES_PER_CPU env) (mySystem cpu))));
          lo = sys_peek env vector 0 s3;
          hi = sys_peek env (vector + 1) 0 (snd lo)
      in cpu\<lparr>mySystem := snd hi, SP := SP cpu - 3, D := False,
             PC := ucast (fst lo) OR push_bit 8 (ucast (fst hi))\<rparr>)"
  by (simp add: interrupt_frame_def Let_def split_beta)

text \<open>
  C1 (as amended).  \<open>interruptHandler\<close> takes a pending maskable interrupt only when the
  flag \<open>I\<close> is clear, and otherwise a pending non-maskable one.  Taking an interrupt
  advances the clock by seven processor cycles and pushes exactly three bytes through
  \<open>System::poke\<close>, at \<open>0x0100 + SP\<close>, \<open>0x0100 + (SP - 1)\<close> and \<open>0x0100 + (SP - 2)\<close>
  (the stack pointer wrapping as a byte), in this order: the high byte of \<open>PC - 1\<close>, the
  low byte of \<open>PC - 1\<close> (16-bit arithmetic), and the status byte \<open>PS()\<close> with bit
  \<open>0x10\<close> cleared.  It then clears \<open>D\<close>, sets \<open>I\<close> for the maskable interrupt only, and
  loads \<open>PC\<close> from the vector: low byte from \<open>0xFFFE\<close> and high byte from \<open>0xFFFF\<close>
  for the maskable interrupt, \<open>0xFFFA\<close> and \<open>0xFFFB\<close> for the non-maskable one.  In every
  case the two interrupt bits of the execution status are cleared; when no interrupt is
  taken nothing else changes.
\<close>

theorem C1_interrupt_frame_and_vector:
  "(let pending_irq = (myExecutionStatus cpu AND MaskableInterruptBit env \<noteq> 0);
        pending_nmi = (myExecutionStatus cpu AND NonmaskableInterruptBit env \<noteq> 0);
        cleared = myExecutionStatus cpu AND NOT (MaskableInterruptBit env OR NonmaskableInterruptBit env);
        s3 = sys_poke env (0x0100 + ucast (SP cpu - 2)) (PS env cpu AND NOT 0x10) 0
               (sys_poke env (0x0100 + ucast (SP cpu - 1)) (ucast ((PC cpu - 1) AND 0x00ff)) 0
                 (sys_poke env (0x0100 + ucast (SP cpu)) (ucast (drop_bit 8 (PC cpu - 1))) 0
                   (sys_incrementCycles env (7 * SYSTEM_CYCLES_PER_CPU env) (mySystem cpu))));
        taken = (\<lambda>vector.
          cpu\<lparr>mySystem := snd (sys_peek env (vector + 1) 0 (snd (sys_peek env vector 0 s3))),
              SP := SP cpu - 3, D := False,
              PC := ucast (fst (sys_peek env vector 0 s3)) OR
                    push_bit 8 (ucast (fst (sys_peek env (vector + 1) 0 (snd (sys_peek env vector 0 s3))))),
              myExecutionStatus := cleared\<rparr>)
    in (pending_irq \<and> \<not> I cpu \<longrightarrow> interruptHandler env cpu = (taken 0xFFFE)\<lparr>I := True\<rparr>) \<and>
       (\<not> (pending_irq \<and> \<not> I cpu) \<and> pending_nmi \<longrightarrow> interruptHandler env cpu = taken 0xFFFA) \<and>
       (\<not> (pending_irq \<and> \<not> I cpu) \<and> \<not> pending_nmi \<longrightarrow>
          interruptHandler env cpu = cpu\<lparr>myExecutionStatus := cleared\<rparr>))"
  by (simp add: interruptHandler_def interrupt_frame_effect Let_def)

lemma flat_env_simps:
  "sys_peek flat_env = flat_peek" "sys_poke flat_env = flat_poke"
  "sys_incrementCycles flat_env = flat_incrementCycles" "sys_cycles flat_env = flat_cycles"
  "tia_updateEmulation flat_env = (\<lambda>s. s)" "m6532_updateEmulation flat_env = (\<lambda>s. s)"
  "myOnHaltCallback flat_env = (\<lambda>s. s)"
  "StopExecutionBit flat_env = 1" "FatalErrorBit flat_env = 2"
  "MaskableInterruptBit flat_env = 4" "NonmaskableInterruptBit flat_env = 8"
  "SYSTEM_CYCLES_PER_CPU flat_env = 1" "PS flat_env = flat_PS" "DISASM_CODE flat_env = 0"
  "instructions flat_env = (\<lambda>op. if op = 0xEA then Some flat_NOP else None)"
  by (simp_all add: flat_env_def flat_bus_def)

lemma flat_bus_simps:
  "sys_peek flat_bus = flat_peek" "sys_poke flat_bus = flat_poke"
  "sys_incrementCycles flat_bus = flat_incrementCycles" "sys_cycles flat_bus = flat_cycles"
  "myOnHaltCallback flat_bus = (\<lambda>s. s)"
  "SYSTEM_CYCLES_PER_CPU flat_bus = 1"
  by (simp_all add: flat_bus_def)

text \<open>
  An instance on the flat system: \<open>PC = 0x1000\<close>, \<open>SP = 0xFD\<close>, a maskable interrupt
  pending, the vector at \<open>0xFFFE\<close> holding \<open>0x1234\<close>.
\<close>

theorem C1_interrupt_witness:
  "(let cpu = (flat_cpu ((\<lambda>a. 0)(0xFFFE := 0x34, 0xFFFF := 0x12)))
                \<lparr>PC := 0x1000, SP := 0xFD, myExecutionStatus := 0x04\<rparr>;
        cpu' = interruptHandler flat_env cpu
    in myExecutionStatus cpu AND MaskableInterruptBit flat_env \<noteq> 0 \<and> \<not> I cpu \<and>
       PC cpu' = 0x1234 \<and> SP cpu' = 0xFA \<and> I cpu' \<and> myExecutionStatus cpu' = 0 \<and>
       flat_memory (mySystem cpu') 0x01FD = 0x0F \<and>
       flat_memory (mySystem cpu') 0x01FC = 0xFF \<and>
       flat_memory (mySystem cpu') 0x01FB = 0x22 \<and>
       flat_cycles (mySystem cpu') = 7)"
  using C1_interrupt_frame_and_vector
          [of "(flat_cpu ((\<lambda>a. 0)(0xFFFE := 0x34, 0xFFFF := 0x12)))
                 \<lparr>PC := 0x1000, SP := 0xFD, myExecutionStatus := 0x04\<rparr>" flat_env]
  by (simp add: Let_def flat_env_simps flat_cpu_def flat_peek_def flat_poke_def
                flat_incrementCycles_def flat_PS_def)

text \<open>
  The claim as stated has the program counter's own high and low bytes pushed.  With
  \<open>PC = 0x1000\<close> these are \<open>0x10\<close> and \<open>0x00\<close>; the bytes the handler writes to
  \<open>0x01FD\<close> and \<open>0x01FC\<close> are \<open>0x0F\<close> and \<open>0xFF\<close>, the bytes of \<open>PC - 1\<close>.
\<close>

theorem C1_pushes_pc_minus_one_counterexample:
  "(let cpu = (flat_cpu (\<lambda>a. 0))\<lparr>PC := 0x1000, SP := 0xFD, myExecutionStatus := 0x04\<rparr>;
        cpu' = interruptHandler flat_env cpu
    in ucast (drop_bit 8 (PC cpu)) = (0x10 :: u8) \<and> ucast (PC cpu AND 0xff) = (0x00 :: u8) \<and>
       flat_memory (mySystem cpu') 0x01FD = 0x0F \<and>
       flat_memory (mySystem cpu') 0x01FC = 0xFF)"
  by (simp add: Let_def flat_env_simps flat_cpu_def flat_peek_def flat_poke_def
                flat_incrementCycles_def flat_PS_def interruptHandler_def interrupt_frame_def)

lemma handleHalt_status: "myExecutionStatus (handleHalt env cpu) = myExecutionStatus cpu"
  by (simp add: handleHalt_def)

lemma M6502_peek_status:
  "myExecutionStatus (snd (M6502_peek env address flags cpu)) = myExecutionStatus cpu"
  by (simp add: M6502_peek_def Let_def split_beta handleHalt_status)

lemma execute_fetch_status:
  "myExecutionStatus (execute_fetch env cpu) = myExecutionStatus cpu"
  by (simp add: execute_fetch_def Let_def split_beta M6502_peek_status)

lemma execute_loop_stop_fatal:
  assumes "myExecutionStatus cpu = FatalErrorBit env"
      and "FatalErrorBit env \<noteq> 0"
      and "FatalErrorBit env AND MaskableInterruptBit env = 0"
      and "FatalErrorBit env AND NonmaskableInterruptBit env = 0"
  shows "execute_loop env cycles previousCycles currentCycles result cpu =
           Some (result @ [setFatal currentCycles], cpu)"
  using assms by (subst execute_loop.simps) simp

text \<open>
  C2.  Take the loop of \<open>_execute\<close> at any iteration that runs an instruction (the
  execution status is clear and the cycle budget is not used up), with any budget and any
  result written so far.  If the opcode it fetches has no case in the dispatch table, the
  call returns: the result receives the message \<open>invalid instruction\<close> and is then marked
  fatal, and the processor is left exactly as the opcode fetch left it, with the
  fatal-error bit set.  No instruction, interrupt or further fetch is executed.  The premises
  on the bits say that \<open>FatalErrorBit\<close> is a bit of its own (M6502.hxx, where it is declared,
  is not in the sources).
\<close>

theorem C2_invalid_opcode_is_fatal:
  assumes "FatalErrorBit env \<noteq> 0"
      and "FatalErrorBit env AND MaskableInterruptBit env = 0"
      and "FatalErrorBit env AND NonmaskableInterruptBit env = 0"
      and "myExecutionStatus cpu = 0"
      and "currentCycles < cycles * ucast (SYSTEM_CYCLES_PER_CPU env)"
      and "instructions env (IR (execute_fetch env cpu)) = None"
  shows "execute_loop env cycles previousCycles currentCycles result cpu =
           Some (result @ [setMessage ''invalid instruction'',
                           setFatal (sys_cycles env (mySystem (execute_fetch env cpu)) - previousCycles)],
                 (execute_fetch env cpu)\<lparr>myExecutionStatus := FatalErrorBit env\<rparr>)"
proof -
  let ?f = "execute_fetch env cpu"
  have d: "execute_dispatch env ?f = FatalEmulationError ''invalid instruction'' ?f"
    using assms(6) by (simp add: execute_dispatch_def)
  have s: "myExecutionStatus ?f = 0"
    using assms(4) by (simp add: execute_fetch_status)
  have "execute_loop env cycles previousCycles currentCycles result cpu =
          execute_loop env cycles previousCycles
            (sys_cycles env (mySystem ?f) - previousCycles)
            (result @ [setMessage ''invalid instruction''])
            (?f\<lparr>myExecutionStatus := FatalErrorBit env\<rparr>)"
    using assms(4,5) by (subst execute_loop.simps) (simp add: d s)
  also have "\<dots> = Some ((result @ [setMessage ''invalid instruction'']) @
                         [setFatal (sys_cycles env (mySystem ?f) - previousCycles)],
                       ?f\<lparr>myExecutionStatus := FatalErrorBit env\<rparr>)"
    using assms(1,2,3) by (intro execute_loop_stop_fatal) simp_all
  finally show ?thesis by simp
qed

lemmas flat_eval = Let_def flat_env_simps flat_bus_simps flat_cpu_def flat_peek_def flat_poke_def
  flat_incrementCycles_def flat_PS_def flat_NOP_def execute_fetch_def execute_dispatch_def
  M6502_peek_def handleHalt_def split_beta

text \<open>
  An instance through the public \<open>execute\<close>: a \<open>NOP\<close> at \<open>0x1000\<close> followed by the
  byte \<open>0x02\<close>, which the flat system's table does not hold.  The \<open>NOP\<close> runs, the
  second fetch is fatal after three cycles.
\<close>

theorem C2_invalid_opcode_witness:
  "\<exists>cpu'. execute flat_env 100 []
            ((flat_cpu ((\<lambda>a. 0)(0x1000 := 0xEA, 0x1001 := 0x02)))\<lparr>PC := 0x1000\<rparr>)
          = Some ([setMessage ''invalid instruction'', setFatal 3], cpu') \<and>
        PC cpu' = 0x1002 \<and> IR cpu' = 0x02 \<and> myExecutionStatus cpu' = 2 \<and>
        flat_cycles (mySystem cpu') = 3"
proof -
  let ?cpu0 = "(flat_cpu ((\<lambda>a. 0)(0x1000 := 0xEA, 0x1001 := 0x02)))\<lparr>PC := 0x1000\<rparr>"
  let ?f0 = "execute_fetch flat_env ?cpu0"
  let ?cpu1 = "snd (M6502_peek flat_bus (PC ?f0) 0 ?f0)"
  have nop: "execute_dispatch flat_env ?f0 = Completed ?cpu1"
    by (simp add: flat_eval)
  have c1: "flat_cycles (mySystem ?cpu1) = 2" "myExecutionStatus ?cpu1 = 0"
    by (simp_all add: flat_eval)
  have s0: "myExecutionStatus ?cpu0 = 0" by (simp add: flat_cpu_def)
  have step: "execute_loop flat_env 100 0 0 [] ?cpu0 = execute_loop flat_env 100 0 2 [] ?cpu1"
    by (subst execute_loop.simps) (simp only: nop c1 s0 flat_env_simps instruction_result.case, simp)
  have h1: "FatalErrorBit flat_env \<noteq> 0"
    and h2: "FatalErrorBit flat_env AND MaskableInterruptBit flat_env = 0"
    and h3: "FatalErrorBit flat_env AND NonmaskableInterruptBit flat_env = 0"
    by (simp_all add: flat_env_simps)
  have h5: "(2::u64) < 100 * ucast (SYSTEM_CYCLES_PER_CPU flat_env)"
    by (simp add: flat_env_simps)
  have h6: "instructions flat_env (IR (execute_fetch flat_env ?cpu1)) = None"
    by (simp add: flat_eval)
  note fatal = C2_invalid_opcode_is_fatal [OF h1 h2 h3 c1(2) h5 h6, of 0 "[]"]
  have fin: "PC (execute_fetch flat_env ?cpu1) = 0x1002" "IR (execute_fetch flat_env ?cpu1) = 0x02"
            "flat_cycles (mySystem (execute_fetch flat_env ?cpu1)) = 3"
    by (simp_all add: flat_eval)
  have c0: "flat_cycles (mySystem ?cpu0) = 0" "?cpu0\<lparr>myExecutionStatus := 0\<rparr> = ?cpu0"
    by (simp_all add: flat_cpu_def)
  have "execute_private flat_env 100 [] ?cpu0 =
          Some ([setMessage ''invalid instruction'', setFatal 3],
                (execute_fetch flat_env ?cpu1)\<lparr>myExecutionStatus := 2\<rparr>)"
    unfolding execute_private_def flat_env_simps c0 step
    using fatal by (simp add: fin flat_env_simps)
  then show ?thesis
    by (simp add: execute_def fin flat_env_simps)
qed

section \<open>Properties of the audio hand-off ring\<close>

lemma ring_index_distinct:
  assumes "i < j" "j - i < (c::nat)"
  shows "(n + i) mod c \<noteq> (n + j) mod c"
proof
  assume "(n + i) mod c = (n + j) mod c"
  then have "(n + j) mod c = (n + i) mod c" by simp
  then have "c dvd (n + j) - (n + i)"
    using assms(1) by (subst (asm) mod_eq_dvd_iff_nat) simp_all
  then have "c dvd j - i" by simp
  then show False using assms nat_dvd_not_less [of "j - i" c] by simp
qed

lemma length_ring: "length (ring xs n k) = k"
  by (simp add: ring_def)

lemma nth_ring: "i < k \<Longrightarrow> ring xs n k ! i = xs ! ((n + i) mod length xs)"
  by (simp add: ring_def)

lemma ring_shift: "(Suc n mod c + i) mod c = (n + Suc i) mod c"
proof -
  have "(Suc n mod c + i) mod c = (Suc n + i) mod c" by (rule mod_add_left_eq)
  then show ?thesis by simp
qed

lemma ring_snoc:
  assumes "k < length xs"
  shows "ring (xs[(n + k) mod length xs := f]) n (Suc k) = ring xs n k @ [f]"
proof (rule nth_equalityI)
  show "length (ring (xs[(n + k) mod length xs := f]) n (Suc k)) = length (ring xs n k @ [f])"
    by (simp add: length_ring)
  fix i assume "i < length (ring (xs[(n + k) mod length xs := f]) n (Suc k))"
  then have i: "i < Suc k" by (simp add: length_ring)
  have pos: "0 < length xs" using assms by auto
  show "ring (xs[(n + k) mod length xs := f]) n (Suc k) ! i = (ring xs n k @ [f]) ! i"
  proof (cases "i < k")
    case True
    have "(n + i) mod length xs \<noteq> (n + k) mod length xs"
      using True assms by (intro ring_index_distinct) simp_all
    then show ?thesis
      using True i by (simp add: nth_ring nth_append length_ring)
  next
    case False
    then have "i = k" using i by simp
    then show ?thesis
      using pos by (simp add: nth_ring nth_append length_ring)
  qed
qed

lemma ring_drop_head:
  assumes "n < length xs" "0 < k" "k \<le> length xs"
  shows "ring (xs[n := f]) (Suc n mod length xs) (k - 1) = tl (ring xs n k)"
proof (rule nth_equalityI)
  show "length (ring (xs[n := f]) (Suc n mod length xs) (k - 1)) = length (tl (ring xs n k))"
    by (simp add: length_ring)
  fix i assume "i < length (ring (xs[n := f]) (Suc n mod length xs) (k - 1))"
  then have i: "i < k - 1" by (simp add: length_ring)
  have "(n + 0) mod length xs \<noteq> (n + Suc i) mod length xs"
    using i assms by (intro ring_index_distinct) simp_all
  then have ne: "(n + Suc i) mod length xs \<noteq> n"
    using assms(1) by simp
  have "ring (xs[n := f]) (Suc n mod length xs) (k - 1) ! i
        = xs[n := f] ! ((n + Suc i) mod length xs)"
    using i by (simp only: nth_ring length_list_update ring_shift)
  also have "\<dots> = xs ! ((n + Suc i) mod length xs)"
    using ne by (simp only: nth_list_update_neq not_sym)
  also have "\<dots> = ring xs n k ! Suc i"
    using i by (simp add: nth_ring)
  also have "\<dots> = tl (ring xs n k) ! i"
    using i by (simp add: nth_tl length_ring)
  finally show "ring (xs[n := f]) (Suc n mod length xs) (k - 1) ! i = tl (ring xs n k) ! i" .
qed

lemma ring_hd:
  assumes "n < length xs" "0 < k"
  shows "hd (ring xs n k) = xs ! n"
  using assms by (simp add: ring_def hd_map upt_conv_Cons)

lemma ring_overwrite_oldest:
  assumes "n < length xs"
  shows "ring (xs[(n + length xs) mod length xs := f]) (Suc n mod length xs) (length xs)
         = tl (ring xs n (length xs)) @ [f]"
proof -
  let ?c = "length xs"
  have pos: "0 < ?c" using assms by auto
  have slot: "(n + ?c) mod ?c = n" using assms by simp
  have "ring (xs[n := f]) (Suc n mod ?c) ?c
        = ring (xs[n := f]) (Suc n mod ?c) (Suc (?c - 1))"
    using pos by simp
  also have "\<dots> = ring (xs[n := f]) (Suc n mod ?c) (?c - 1)
                   @ [xs[n := f] ! ((Suc n mod ?c + (?c - 1)) mod ?c)]"
    by (simp add: ring_def)
  also have "(Suc n mod ?c + (?c - 1)) mod ?c = n"
  proof -
    have "(Suc n mod ?c + (?c - 1)) mod ?c = (n + Suc (?c - 1)) mod ?c"
      by (rule ring_shift)
    then show ?thesis using pos assms by simp
  qed
  also have "xs[n := f] ! n = f" using assms by simp
  also have "ring (xs[n := f]) (Suc n mod ?c) (?c - 1) = tl (ring xs n ?c)"
    using assms pos by (intro ring_drop_head) simp_all
  finally show ?thesis by (simp only: slot)
qed

lemma small_mod_256: "x < c \<Longrightarrow> c < 256 \<Longrightarrow> x mod 256 = (x::nat)"
  by simp

lemma size_decrement_mod_256:
  assumes "0 < (n::nat)" "n < 256"
  shows "(n + 255) mod 256 = n - 1"
proof -
  have "n + 255 = (n - 1) + 256" using assms(1) by simp
  then have "(n + 255) mod 256 = ((n - 1) + 256) mod 256" by (rule arg_cong)
  also have "\<dots> = (n - 1) mod 256" by (rule mod_add_self2)
  also have "\<dots> = n - 1" using assms(2) by (intro mod_less) simp
  finally show ?thesis .
qed

text \<open>One call on a well-formed ring, in closed form.\<close>

lemma enqueue_ring_ok:
  assumes "ring_ok q" "f \<noteq> 0"
  shows "enqueue q f =
           Inr (myFragmentQueue q ! ((myNextFragment q + mySize q) mod length (myFragmentQueue q)),
                if mySize q < length (myFragmentQueue q)
                then q\<lparr>myFragmentQueue := (myFragmentQueue q)
                            [(myNextFragment q + mySize q) mod length (myFragmentQueue q) := f],
                       mySize := Suc (mySize q)\<rparr>
                else q\<lparr>myFragmentQueue := (myFragmentQueue q)
                            [(myNextFragment q + mySize q) mod length (myFragmentQueue q) := f],
                       myNextFragment := Suc (myNextFragment q) mod length (myFragmentQueue q)\<rparr>)"
proof -
  let ?c = "length (myFragmentQueue q)"
  from assms(1) have c: "0 < ?c" "?c < 256" "mySize q \<le> ?c" "myNextFragment q < ?c"
    by (simp_all add: ring_ok_def)
  have cap: "capacity q = ?c" using c by (simp add: capacity_def)
  have idx: "(myNextFragment q + mySize q) mod ?c < ?c" using c by simp
  have idx256: "((myNextFragment q + mySize q) mod ?c) mod 256 = (myNextFragment q + mySize q) mod ?c"
    using idx c(2) by (rule small_mod_256)
  have "Suc (myNextFragment q) mod ?c < ?c" using c by simp
  then have nxt: "(Suc (myNextFragment q) mod ?c) mod 256 = Suc (myNextFragment q) mod ?c"
    using c(2) by (rule small_mod_256)
  have sz: "mySize q < ?c \<Longrightarrow> Suc (mySize q) mod 256 = Suc (mySize q)"
    using c by simp
  have inside: "\<not> ?c \<le> (myNextFragment q + mySize q) mod ?c"
    using idx by simp
  show ?thesis
    using assms(2) c(1) inside
    by (simp add: enqueue_def cap idx256 nxt sz Let_def)
qed

lemma dequeue_ring_ok:
  assumes "ring_ok q" "f \<noteq> 0" "0 < mySize q"
  shows "dequeue q f =
           Inr (myFragmentQueue q ! myNextFragment q,
                q\<lparr>myFragmentQueue := (myFragmentQueue q)[myNextFragment q := f],
                   mySize := mySize q - 1,
                   myNextFragment := Suc (myNextFragment q) mod length (myFragmentQueue q)\<rparr>)"
proof -
  let ?c = "length (myFragmentQueue q)"
  from assms(1) have c: "0 < ?c" "?c < 256" "mySize q \<le> ?c" "myNextFragment q < ?c"
    by (simp_all add: ring_ok_def)
  have "Suc (myNextFragment q) mod ?c < ?c" using c by simp
  then have nxt: "(Suc (myNextFragment q) mod ?c) mod 256 = Suc (myNextFragment q) mod ?c"
    using c(2) by (rule small_mod_256)
  have sz: "(mySize q + 255) mod 256 = mySize q - 1"
  proof (rule size_decrement_mod_256)
    show "0 < mySize q" by (rule assms(3))
    show "mySize q < 256" using c(2,3) by simp
  qed
  show ?thesis
    using assms(2,3) c(4)
    by (simp add: dequeue_def nxt sz Let_def)
qed


lemma lastn_append: "lastn c (lastn c xs @ ys) = lastn c (xs @ ys)"
  by (cases "length xs \<le> c") (auto simp add: lastn_def ac_simps)

lemma enqueue_step:
  assumes "ring_ok q" "f \<noteq> 0"
  shows "\<exists>r q'. enqueue q f = Inr (r, q') \<and> ring_ok q' \<and>
           length (myFragmentQueue q') = length (myFragmentQueue q) \<and>
           queued q' = lastn (length (myFragmentQueue q)) (queued q @ [f])"
proof -
  let ?c = "length (myFragmentQueue q)"
  from assms(1) have c: "0 < ?c" "?c < 256" "mySize q \<le> ?c" "myNextFragment q < ?c"
    by (simp_all add: ring_ok_def)
  show ?thesis
  proof (cases "mySize q < ?c")
    case True
    have "queued (q\<lparr>myFragmentQueue := (myFragmentQueue q)[(myNextFragment q + mySize q) mod ?c := f],
                    mySize := Suc (mySize q)\<rparr>) = queued q @ [f]"
      using True by (simp add: queued_def ring_snoc)
    moreover have "lastn ?c (queued q @ [f]) = queued q @ [f]"
      using True c(1) by (simp add: lastn_def queued_def length_ring)
    ultimately show ?thesis
      using True c by (simp add: enqueue_ring_ok [OF assms] ring_ok_def)
  next
    case False
    then have full: "mySize q = ?c" using c by simp
    have "queued (q\<lparr>myFragmentQueue := (myFragmentQueue q)[(myNextFragment q + mySize q) mod ?c := f],
                    myNextFragment := Suc (myNextFragment q) mod ?c\<rparr>) = tl (queued q) @ [f]"
      using c(4) by (simp add: queued_def full ring_overwrite_oldest del: mod_add_self2)
    moreover have "lastn ?c (queued q @ [f]) = tl (queued q) @ [f]"
    proof -
      have len: "length (queued q) = ?c" by (simp add: queued_def length_ring full)
      then have ne: "queued q \<noteq> []" using c(1) by auto
      have "lastn ?c (queued q @ [f]) = drop (Suc 0) (queued q @ [f])"
        by (simp add: lastn_def len)
      also have "\<dots> = tl (queued q @ [f])" by (simp only: drop_Suc drop_0)
      also have "\<dots> = tl (queued q) @ [f]" using ne by (rule tl_append2)
      finally show ?thesis .
    qed
    ultimately show ?thesis
      using False c by (simp add: enqueue_ring_ok [OF assms] ring_ok_def)
  qed
qed

lemma enqueue_all_ring_ok:
  assumes "ring_ok q" "\<forall>f\<in>set fs. f \<noteq> 0"
  shows "\<exists>rs q'. enqueue_all q fs = Inr (rs, q') \<and> ring_ok q' \<and>
           length (myFragmentQueue q') = length (myFragmentQueue q) \<and>
           queued q' = lastn (length (myFragmentQueue q)) (queued q @ fs)"
  using assms
proof (induction fs arbitrary: q)
  case Nil
  then show ?case
    by (simp add: lastn_def queued_def length_ring ring_ok_def)
next
  case (Cons f fs)
  from Cons.prems have f: "f \<noteq> 0" and fs: "\<forall>f\<in>set fs. f \<noteq> 0" by simp_all
  from enqueue_step [OF Cons.prems(1) f] obtain r q1 where
    one: "enqueue q f = Inr (r, q1)" "ring_ok q1"
         "length (myFragmentQueue q1) = length (myFragmentQueue q)"
         "queued q1 = lastn (length (myFragmentQueue q)) (queued q @ [f])"
    by blast
  from Cons.IH [OF one(2) fs] obtain rs q2 where
    rest: "enqueue_all q1 fs = Inr (rs, q2)" "ring_ok q2"
          "length (myFragmentQueue q2) = length (myFragmentQueue q1)"
          "queued q2 = lastn (length (myFragmentQueue q1)) (queued q1 @ fs)"
    by blast
  have "queued q2 = lastn (length (myFragmentQueue q)) (queued q @ f # fs)"
    using lastn_append [of "length (myFragmentQueue q)" "queued q @ [f]" fs]
    by (simp add: rest(4) one(3,4))
  then show ?case
    using one rest by simp
qed

lemma dequeue_step:
  assumes "ring_ok q" "g \<noteq> 0" "0 < mySize q"
  shows "\<exists>q'. dequeue q g = Inr (hd (queued q), q') \<and> ring_ok q' \<and>
           length (myFragmentQueue q') = length (myFragmentQueue q) \<and>
           queued q' = tl (queued q) \<and> mySize q' = mySize q - 1"
proof -
  let ?c = "length (myFragmentQueue q)"
  from assms(1) have c: "0 < ?c" "?c < 256" "mySize q \<le> ?c" "myNextFragment q < ?c"
    by (simp_all add: ring_ok_def)
  have "queued (q\<lparr>myFragmentQueue := (myFragmentQueue q)[myNextFragment q := g],
                  mySize := mySize q - 1,
                  myNextFragment := Suc (myNextFragment q) mod ?c\<rparr>) = tl (queued q)"
    using ring_drop_head [OF c(4) assms(3) c(3), of g] by (simp add: queued_def)
  moreover have "hd (queued q) = myFragmentQueue q ! myNextFragment q"
    using c assms(3) by (simp add: queued_def ring_hd)
  ultimately show ?thesis
    using c by (simp add: dequeue_ring_ok [OF assms] ring_ok_def)
qed

lemma dequeue_all_ring_ok:
  assumes "ring_ok q" "\<forall>g\<in>set gs. g \<noteq> 0" "length gs \<le> mySize q"
  shows "\<exists>q'. dequeue_all q gs = Inr (take (length gs) (queued q), q') \<and> ring_ok q' \<and>
           length (myFragmentQueue q') = length (myFragmentQueue q) \<and>
           queued q' = drop (length gs) (queued q) \<and> mySize q' = mySize q - length gs"
  using assms
proof (induction gs arbitrary: q)
  case Nil
  then show ?case by simp
next
  case (Cons g gs)
  from Cons.prems have g: "g \<noteq> 0" and gs: "\<forall>g\<in>set gs. g \<noteq> 0" and pos: "0 < mySize q"
    by simp_all
  from dequeue_step [OF Cons.prems(1) g pos] obtain q1 where
    one: "dequeue q g = Inr (hd (queued q), q1)" "ring_ok q1"
         "length (myFragmentQueue q1) = length (myFragmentQueue q)"
         "queued q1 = tl (queued q)" "mySize q1 = mySize q - 1"
    by blast
  have "length gs \<le> mySize q1" using Cons.prems(3) one(5) by simp
  from Cons.IH [OF one(2) gs this] obtain q2 where
    rest: "dequeue_all q1 gs = Inr (take (length gs) (queued q1), q2)" "ring_ok q2"
          "length (myFragmentQueue q2) = length (myFragmentQueue q1)"
          "queued q2 = drop (length gs) (queued q1)" "mySize q2 = mySize q1 - length gs"
    by blast
  have ne: "queued q \<noteq> []"
    using pos by (auto simp add: queued_def ring_def)
  have "hd (queued q) # take (length gs) (tl (queued q)) = take (Suc (length gs)) (queued q)"
    using ne by (cases "queued q") simp_all
  moreover have "drop (length gs) (tl (queued q)) = drop (Suc (length gs)) (queued q)"
    by (simp add: drop_Suc)
  ultimately show ?case
    using one rest by simp
qed

lemma AudioQueue_new_ring_ok:
  "cap \<noteq> 0 \<Longrightarrow> ring_ok (AudioQueue_new buf fragmentSize cap isStereo sampleRate)"
proof -
  assume "cap \<noteq> 0"
  then have "0 < unat cap" by (simp add: unat_gt_0)
  moreover have "unat cap < 256" using unsigned_less [of cap] by simp
  ultimately show ?thesis
    by (simp add: AudioQueue_new_def ring_ok_def Let_def)
qed

lemma dequeue_empty: "mySize q = 0 \<Longrightarrow> dequeue q g = Inr (0, q)"
  by (simp add: dequeue_def)

lemma fragment_at_step:
  assumes "Suc i * ss * fs < 2 ^ 32"
  shows "fragment_at buf (Suc i) ss fs = fragment_at buf i ss fs + ss * fs"
proof -
  have "i * ss * fs \<le> Suc i * ss * fs" by simp
  then have "i * ss * fs < 2 ^ 32" using assms by linarith
  then show ?thesis using assms by (simp add: fragment_at_def algebra_simps)
qed

lemma reserved_fragments_fresh:
  assumes "buf \<noteq> 0" "fragmentSize \<noteq> 0"
      and "(unat cap + 2) * (if isStereo then 2 else 1) * unat fragmentSize < 2 ^ 32"
  shows "myFirstFragmentForEnqueue (AudioQueue_new buf fragmentSize cap isStereo rate) \<noteq> 0"
    and "myFirstFragmentForDequeue (AudioQueue_new buf fragmentSize cap isStereo rate) =
         myFirstFragmentForEnqueue (AudioQueue_new buf fragmentSize cap isStereo rate) +
           (if isStereo then 2 else 1) * unat fragmentSize"
    and "0 < (if isStereo then 2 else 1) * unat fragmentSize"
proof -
  let ?ss = "if isStereo then 2 else 1 :: nat"
  have pos: "0 < unat fragmentSize" using assms(2) by (simp add: unat_gt_0)
  show "0 < (if isStereo then 2 else 1) * unat fragmentSize" using pos by simp
  show "myFirstFragmentForEnqueue (AudioQueue_new buf fragmentSize cap isStereo rate) \<noteq> 0"
    using assms(1) by (simp add: AudioQueue_new_def Let_def fragment_at_def)
  have "Suc (unat cap) * ?ss * unat fragmentSize \<le> (unat cap + 2) * ?ss * unat fragmentSize"
    by simp
  then have "Suc (unat cap) * ?ss * unat fragmentSize < 2 ^ 32"
    using assms(3) by linarith
  from fragment_at_step [OF this, of buf]
  show "myFirstFragmentForDequeue (AudioQueue_new buf fragmentSize cap isStereo rate) =
         myFirstFragmentForEnqueue (AudioQueue_new buf fragmentSize cap isStereo rate) +
           (if isStereo then 2 else 1) * unat fragmentSize"
    by (simp add: AudioQueue_new_def Let_def)
qed

lemma enqueue_null:
  "enqueue q 0 = (if myFirstFragmentForEnqueue q = 0 then Inl (RuntimeError ''enqueue called empty'')
                  else Inr (myFirstFragmentForEnqueue q, q\<lparr>myFirstFragmentForEnqueue := 0\<rparr>))"
  by (simp add: enqueue_def)

lemma dequeue_null_spent:
  "mySize q \<noteq> 0 \<Longrightarrow> myFirstFragmentForDequeue q = 0 \<Longrightarrow>
     dequeue q 0 = Inl (RuntimeError ''dequeue called empty'')"
  by (simp add: dequeue_def)

lemma dequeue_null_reserved:
  assumes "ring_ok q" "mySize q \<noteq> 0" "myFirstFragmentForDequeue q \<noteq> 0"
  shows "dequeue q 0 =
           Inr (hd (queued q),
                q\<lparr>myFirstFragmentForDequeue := 0,
                   myFragmentQueue := (myFragmentQueue q)[myNextFragment q := myFirstFragmentForDequeue q],
                   mySize := mySize q - 1,
                   myNextFragment := Suc (myNextFragment q) mod length (myFragmentQueue q)\<rparr>)"
proof -
  let ?c = "length (myFragmentQueue q)"
  from assms(1) have c: "0 < ?c" "?c < 256" "mySize q \<le> ?c" "myNextFragment q < ?c"
    by (simp_all add: ring_ok_def)
  have "Suc (myNextFragment q) mod ?c < ?c" using c by simp
  then have nxt: "(Suc (myNextFragment q) mod ?c) mod 256 = Suc (myNextFragment q) mod ?c"
    using c(2) by (rule small_mod_256)
  have sz: "(mySize q + 255) mod 256 = mySize q - 1"
  proof (rule size_decrement_mod_256)
    show "0 < mySize q" using assms(2) by simp
    show "mySize q < 256" using c(2,3) by simp
  qed
  have "hd (queued q) = myFragmentQueue q ! myNextFragment q"
    using c assms(2) by (simp add: queued_def ring_hd)
  then show ?thesis
    using assms(2,3) c(4)
    by (simp add: dequeue_def nxt sz Let_def)
qed

lemma enqueue_keeps_spent:
  assumes "enqueue q f = Inr (r, q')"
  shows "(myFirstFragmentForEnqueue q = 0 \<longrightarrow> myFirstFragmentForEnqueue q' = 0) \<and>
         myFirstFragmentForDequeue q' = myFirstFragmentForDequeue q"
  using assms by (auto simp add: enqueue_def Let_def split: if_splits)

lemma dequeue_keeps_spent:
  assumes "dequeue q f = Inr (r, q')"
  shows "(myFirstFragmentForDequeue q = 0 \<longrightarrow> myFirstFragmentForDequeue q' = 0) \<and>
         myFirstFragmentForEnqueue q' = myFirstFragmentForEnqueue q"
  using assms by (auto simp add: dequeue_def Let_def split: if_splits)

text \<open>
  C3 (as amended: capacity at least one).  Take a queue in any well-formed state of capacity
  \<open>c \<ge> 1\<close> (a freshly constructed queue with \<open>c \<ge> 1\<close> is one, see
  \<open>AudioQueue_new_ring_ok\<close>).  Enqueueing \<open>c + 1\<close> filled (non-null) fragments succeeds,
  and \<open>c\<close> dequeues, each handing in a non-null buffer, then return exactly the last
  \<open>c\<close> of the enqueued fragments in insertion order: the first one was dropped.  The queue
  is then empty, and a dequeue on an empty queue returns null and leaves the queue as it was.
\<close>

theorem C3_overflow_drops_oldest:
  assumes "ring_ok q"
      and "length fs = capacity q + 1" and "0 \<notin> set fs"
      and "length gs = capacity q" and "0 \<notin> set gs"
  shows "\<exists>rs q1 q2. enqueue_all q fs = Inr (rs, q1) \<and>
           dequeue_all q1 gs = Inr (tl fs, q2) \<and> length (tl fs) = capacity q \<and>
           mySize q2 = 0 \<and> dequeue q2 g = Inr (0, q2)"
proof -
  let ?c = "length (myFragmentQueue q)"
  from assms(1) have c: "0 < ?c" "?c < 256" "mySize q \<le> ?c"
    by (simp_all add: ring_ok_def)
  have cap: "capacity q = ?c" using c by (simp add: capacity_def)
  have fs: "\<forall>f\<in>set fs. f \<noteq> 0" using assms(3) by metis
  have gs: "\<forall>g\<in>set gs. g \<noteq> 0" using assms(5) by metis
  from enqueue_all_ring_ok [OF assms(1) fs] obtain rs q1 where
    e: "enqueue_all q fs = Inr (rs, q1)" "ring_ok q1"
       "length (myFragmentQueue q1) = ?c" "queued q1 = lastn ?c (queued q @ fs)"
    by blast
  have len: "length (queued q) = mySize q" by (simp add: queued_def length_ring)
  have "lastn ?c (queued q @ fs) = drop (Suc (length (queued q))) (queued q @ fs)"
    using assms(2) by (simp add: lastn_def cap)
  also have "\<dots> = tl fs" by (simp add: drop_Suc)
  finally have content: "queued q1 = tl fs" by (simp only: e(4))
  have "length (queued q1) = mySize q1" by (simp add: queued_def length_ring)
  then have size1: "mySize q1 = ?c" using content assms(2) by (simp add: cap)
  have "length gs \<le> mySize q1" using size1 assms(4) by (simp add: cap)
  from dequeue_all_ring_ok [OF e(2) gs this] obtain q2 where
    d: "dequeue_all q1 gs = Inr (take (length gs) (queued q1), q2)"
       "mySize q2 = mySize q1 - length gs"
    by blast
  have "take (length gs) (queued q1) = tl fs"
    using content assms(2,4) by simp
  moreover have "mySize q2 = 0" using d(2) size1 assms(4) by (simp add: cap)
  ultimately show ?thesis
    using e(1) d(1) assms(2) by (simp add: dequeue_empty)
qed

text \<open>An instance: capacity 2, fragments 7, 8, 9 go in, 8 and 9 come out.\<close>

theorem C3_overflow_witness:
  "ring_ok (AudioQueue_new 1000 16 2 False 44100) \<and>
   capacity (AudioQueue_new 1000 16 2 False 44100) = 2 \<and>
   (\<exists>rs q1 q2. enqueue_all (AudioQueue_new 1000 16 2 False 44100) [7, 8, 9] = Inr (rs, q1) \<and>
      dequeue_all q1 [1, 2] = Inr ([8, 9], q2) \<and>
      mySize q2 = 0 \<and> dequeue q2 0 = Inr (0, q2))"
proof -
  have ok: "ring_ok (AudioQueue_new 1000 16 2 False 44100)"
    by (rule AudioQueue_new_ring_ok) simp
  have cap: "capacity (AudioQueue_new 1000 16 2 False 44100) = 2"
    by (simp add: capacity_def AudioQueue_new_def Let_def)
  show ?thesis
    using C3_overflow_drops_oldest [OF ok, of "[7, 8, 9]" "[1, 2]" 0] ok cap by simp
qed

text \<open>
  The claim as stated covers a queue of capacity zero.  There the first enqueue of a filled
  fragment computes \<open>(myNextFragment + mySize) % capacity\<close> with \<open>capacity = 0\<close>: no
  fragment is ever queued, the call fails.
\<close>

theorem C3_zero_capacity_counterexample:
  "capacity (AudioQueue_new 1000 16 0 False 44100) = 0 \<and>
   enqueue_all (AudioQueue_new 1000 16 0 False 44100) [7] = Inl DivisionByZero"
  by (simp add: capacity_def AudioQueue_new_def enqueue_def Let_def)

text \<open>
  C9 (as amended).  For a queue constructed over a non-null buffer with a positive fragment
  size whose buffer size does not overflow 32 bits:
  \<^item> the two reserved fragments are non-null and distinct (the dequeue-side one lies behind
    the enqueue-side one);
  \<^item> the first \<open>enqueue\<close> without a fragment returns the enqueue-side reserved fragment
    and marks it spent; an \<open>enqueue\<close> without a fragment on a queue whose enqueue-side
    fragment is spent throws;
  \<^item> a \<open>dequeue\<close> without a fragment on a non-empty queue whose dequeue-side fragment is
    unspent returns the oldest queued fragment (not the reserved one) and puts the reserved
    fragment into the vacated slot of the ring, marking it spent; on a non-empty queue whose
    dequeue-side fragment is spent it throws;
  \<^item> no successful call makes a spent fragment available again.
\<close>

theorem C9_reserved_fragments:
  assumes "buf \<noteq> 0" "fragmentSize \<noteq> 0"
      and "(unat cap + 2) * (if isStereo then 2 else 1) * unat fragmentSize < 2 ^ 32"
  shows "myFirstFragmentForEnqueue (AudioQueue_new buf fragmentSize cap isStereo rate) \<noteq> 0 \<and>
         myFirstFragmentForEnqueue (AudioQueue_new buf fragmentSize cap isStereo rate)
           < myFirstFragmentForDequeue (AudioQueue_new buf fragmentSize cap isStereo rate) \<and>
         enqueue (AudioQueue_new buf fragmentSize cap isStereo rate) 0 =
           Inr (myFirstFragmentForEnqueue (AudioQueue_new buf fragmentSize cap isStereo rate),
                (AudioQueue_new buf fragmentSize cap isStereo rate)\<lparr>myFirstFragmentForEnqueue := 0\<rparr>) \<and>
         (\<forall>q. myFirstFragmentForEnqueue q = 0 \<longrightarrow>
               enqueue q 0 = Inl (RuntimeError ''enqueue called empty'')) \<and>
         (\<forall>q. ring_ok q \<and> mySize q \<noteq> 0 \<and> myFirstFragmentForDequeue q \<noteq> 0 \<longrightarrow>
               dequeue q 0 =
                 Inr (hd (queued q),
                      q\<lparr>myFirstFragmentForDequeue := 0,
                         myFragmentQueue :=
                           (myFragmentQueue q)[myNextFragment q := myFirstFragmentForDequeue q],
                         mySize := mySize q - 1,
                         myNextFragment := Suc (myNextFragment q) mod length (myFragmentQueue q)\<rparr>)) \<and>
         (\<forall>q. mySize q \<noteq> 0 \<and> myFirstFragmentForDequeue q = 0 \<longrightarrow>
               dequeue q 0 = Inl (RuntimeError ''dequeue called empty'')) \<and>
         (\<forall>q f r q'. enqueue q f = Inr (r, q') \<or> dequeue q f = Inr (r, q') \<longrightarrow>
               (myFirstFragmentForEnqueue q = 0 \<longrightarrow> myFirstFragmentForEnqueue q' = 0) \<and>
               (myFirstFragmentForDequeue q = 0 \<longrightarrow> myFirstFragmentForDequeue q' = 0))"
proof -
  let ?q0 = "AudioQueue_new buf fragmentSize cap isStereo rate"
  note fresh = reserved_fragments_fresh [OF assms]
  have a: "myFirstFragmentForEnqueue ?q0 \<noteq> 0" by (rule fresh(1))
  have b: "myFirstFragmentForEnqueue ?q0 < myFirstFragmentForDequeue ?q0"
    using fresh(2) [of rate] fresh(3) by linarith
  have c: "enqueue ?q0 0 = Inr (myFirstFragmentForEnqueue ?q0, ?q0\<lparr>myFirstFragmentForEnqueue := 0\<rparr>)"
    using a by (simp only: enqueue_null if_False)
  have d: "\<forall>q. myFirstFragmentForEnqueue q = 0 \<longrightarrow>
               enqueue q 0 = Inl (RuntimeError ''enqueue called empty'')"
    by (simp add: enqueue_null)
  have e: "\<forall>q. ring_ok q \<and> mySize q \<noteq> 0 \<and> myFirstFragmentForDequeue q \<noteq> 0 \<longrightarrow>
               dequeue q 0 =
                 Inr (hd (queued q),
                      q\<lparr>myFirstFragmentForDequeue := 0,
                         myFragmentQueue :=
                           (myFragmentQueue q)[myNextFragment q := myFirstFragmentForDequeue q],
                         mySize := mySize q - 1,
                         myNextFragment := Suc (myNextFragment q) mod length (myFragmentQueue q)\<rparr>)"
    using dequeue_null_reserved by blast
  have f: "\<forall>q. mySize q \<noteq> 0 \<and> myFirstFragmentForDequeue q = 0 \<longrightarrow>
               dequeue q 0 = Inl (RuntimeError ''dequeue called empty'')"
    using dequeue_null_spent by blast
  have g: "\<forall>q f r q'. enqueue q f = Inr (r, q') \<or> dequeue q f = Inr (r, q') \<longrightarrow>
               (myFirstFragmentForEnqueue q = 0 \<longrightarrow> myFirstFragmentForEnqueue q' = 0) \<and>
               (myFirstFragmentForDequeue q = 0 \<longrightarrow> myFirstFragmentForDequeue q' = 0)"
    using enqueue_keeps_spent dequeue_keeps_spent by metis
  from a b c d e f g show ?thesis by (intro conjI)
qed

text \<open>
  The claim as stated has \<open>dequeue\<close> return the reserved dequeue-side fragment.  On a
  fresh queue (buffer at 1000, 16 samples per fragment, capacity 2, mono) the reserved
  fragments are 1032 and 1048.  The producer takes 1032 by \<open>enqueue(null)\<close> and
  enqueues it; the consumer's \<open>dequeue(null)\<close> then returns 1032, the queued fragment,
  and not 1048.
\<close>

theorem C9_dequeue_returns_queued_counterexample:
  "\<exists>q1 r q2 q3.
     enqueue (AudioQueue_new 1000 16 2 False 44100) 0 = Inr (1032, q1) \<and>
     enqueue q1 1032 = Inr (r, q2) \<and> mySize q2 = 1 \<and>
     myFirstFragmentForDequeue q2 = 1048 \<and>
     dequeue q2 0 = Inr (1032, q3)"
  by (simp add: AudioQueue_new_def enqueue_def dequeue_def capacity_def fragment_at_def Let_def)

text \<open>An instance of the amended claim on that same fresh queue.\<close>

theorem C9_reserved_witness:
  "(1000::nat) \<noteq> 0 \<and> (16::u32) \<noteq> 0 \<and>
   (unat (2::u8) + 2) * (if False then 2 else 1) * unat (16::u32) < (2::nat) ^ 32 \<and>
   myFirstFragmentForEnqueue (AudioQueue_new 1000 16 2 False 44100) = 1032 \<and>
   myFirstFragmentForDequeue (AudioQueue_new 1000 16 2 False 44100) = 1048 \<and>
   enqueue (AudioQueue_new 1000 16 2 False 44100) 0 =
     Inr (1032, (AudioQueue_new 1000 16 2 False 44100)\<lparr>myFirstFragmentForEnqueue := 0\<rparr>) \<and>
   enqueue ((AudioQueue_new 1000 16 2 False 44100)\<lparr>myFirstFragmentForEnqueue := 0\<rparr>) 0 =
     Inl (RuntimeError ''enqueue called empty'') \<and>
   dequeue ((AudioQueue_new 1000 16 2 False 44100)\<lparr>mySize := 1, myFirstFragmentForDequeue := 0\<rparr>) 0 =
     Inl (RuntimeError ''dequeue called empty'')"
proof -
  have h1: "(1000::nat) \<noteq> 0" by simp
  have h2: "(16::u32) \<noteq> 0" by simp
  have h3: "(unat (2::u8) + 2) * (if False then 2 else 1) * unat (16::u32) < (2::nat) ^ 32"
    by simp
  note T = C9_reserved_fragments [OF h1 h2 h3, of 44100]
  have e: "myFirstFragmentForEnqueue (AudioQueue_new 1000 16 2 False 44100) = 1032"
    by (simp add: AudioQueue_new_def fragment_at_def Let_def)
  have d: "myFirstFragmentForDequeue (AudioQueue_new 1000 16 2 False 44100) = 1048"
    by (simp add: AudioQueue_new_def fragment_at_def Let_def)
  from T have "enqueue (AudioQueue_new 1000 16 2 False 44100) 0 =
     Inr (myFirstFragmentForEnqueue (AudioQueue_new 1000 16 2 False 44100),
          (AudioQueue_new 1000 16 2 False 44100)\<lparr>myFirstFragmentForEnqueue := 0\<rparr>)"
    by blast
  moreover from T have "enqueue ((AudioQueue_new 1000 16 2 False 44100)\<lparr>myFirstFragmentForEnqueue := 0\<rparr>) 0 =
     Inl (RuntimeError ''enqueue called empty'')"
    by simp
  moreover from T have "dequeue ((AudioQueue_new 1000 16 2 False 44100)\<lparr>mySize := 1, myFirstFragmentForDequeue := 0\<rparr>) 0 =
     Inl (RuntimeError ''dequeue called empty'')"
    by simp
  ultimately show ?thesis using h1 h2 h3 e d by simp
qed

section \<open>Properties of the shift register\<close>

lemma lfsr_rotate_back:
  "push_bit 11 (drop_bit 11 r OR push_bit 21 r) OR
   drop_bit 21 (drop_bit 11 r OR push_bit 21 r) = (r::u32)"
  by (rule bit_word_eqI) (auto simp add: bit_simps)

lemma lfsr_rotated_top_bit:
  "bit (drop_bit 11 r OR push_bit 21 r :: u32) 31 = bit r 10"
  by (auto simp add: bit_simps dest: bit_imp_le_length)

lemma lfsr_test_bit: "(r AND push_bit n 1 \<noteq> 0) = bit (r::u32) n"
  using bit_iff_and_push_bit_not_eq_0 by blast

lemma lfsr_prior_clock:
  "priorClockRandomNumberGenerator (clockRandomNumberGenerator r) = r"
proof (cases "bit r 10")
  case True
  let ?rot = "drop_bit 11 r OR push_bit 21 r"
  have c: "clockRandomNumberGenerator r = 0x10adab1e XOR ?rot"
    unfolding clockRandomNumberGenerator_def lfsr_test_bit using True by (simp only: if_True)
  have top: "bit (0x10adab1e XOR ?rot) 31"
    using True by (simp add: bit_xor_iff lfsr_rotated_top_bit)
  have undo: "0x10adab1e XOR (0x10adab1e XOR ?rot) = ?rot"
    by (simp flip: xor.assoc)
  show ?thesis
    unfolding c priorClockRandomNumberGenerator_def lfsr_test_bit
    using top by (simp only: if_True undo lfsr_rotate_back)
next
  case False
  let ?rot = "drop_bit 11 r OR push_bit 21 r"
  have c: "clockRandomNumberGenerator r = ?rot"
    unfolding clockRandomNumberGenerator_def lfsr_test_bit using False
    by (simp only: if_False xor.left_neutral)
  have top: "\<not> bit ?rot 31"
    using False by (simp only: lfsr_rotated_top_bit not_False_eq_True)
  show ?thesis
    unfolding c priorClockRandomNumberGenerator_def lfsr_test_bit
    using top by (simp only: if_False lfsr_rotate_back)
qed

lemma lfsr_prior_clock_funpow:
  "(priorClockRandomNumberGenerator ^^ n) ((clockRandomNumberGenerator ^^ n) r) = r"
proof (induction n arbitrary: r)
  case 0
  show ?case by simp
next
  case (Suc n)
  have "(priorClockRandomNumberGenerator ^^ Suc n) ((clockRandomNumberGenerator ^^ Suc n) r)
      = (priorClockRandomNumberGenerator ^^ n)
          (priorClockRandomNumberGenerator
            (clockRandomNumberGenerator ((clockRandomNumberGenerator ^^ n) r)))"
    by (simp only: funpow.simps funpow_swap1 comp_apply)
  also have "\<dots> = (priorClockRandomNumberGenerator ^^ n) ((clockRandomNumberGenerator ^^ n) r)"
    by (simp only: lfsr_prior_clock)
  also have "\<dots> = r" by (rule Suc.IH)
  finally show ?case .
qed

text \<open>
  C4. Clocking the DPC+ shift register forward \<open>n\<close> times and then backward \<open>n\<close> times
  gives back the register value it started from, for every \<open>n\<close>, and the backward clock
  undoes one forward clock.  The claim asks this of non-zero values; the code satisfies it
  for every 32-bit value, zero included, so the theorem needs no premise.
\<close>

theorem C4_lfsr_forward_then_backward:
  "priorClockRandomNumberGenerator (clockRandomNumberGenerator r) = r \<and>
   (priorClockRandomNumberGenerator ^^ n) ((clockRandomNumberGenerator ^^ n) r) = r"
  by (simp only: lfsr_prior_clock lfsr_prior_clock_funpow simp_thms)

end
